theory Spec2Isabelle
  imports Main "HOL-Library.Word"
begin

section \<open>The asynchronous pipeline of \<^verbatim>\<open>async_pipeline.cpp\<close>\<close>

text \<open>
  A shallow embedding of \<^verbatim>\<open>PipelineBase\<close>
  (\<^verbatim>\<open>demos/common/processing/src/async_pipeline.cpp\<close>): the members the
  scheduler reads and writes are the fields of a record, every member function takes the
  object's state and returns the new one, and every critical section (the body run under
  \<^verbatim>\<open>mtx\<close>) is one atomic function. Calls into external collaborators
  (the model's preprocessing, the backend's blobs, the hook) are represented by their
  outcome, passed as an argument.
\<close>

subsection \<open>Data\<close>

text \<open>
  \<^verbatim>\<open>int64_t\<close> is a 64-bit word read as two's complement by \<open>sint\<close>. An
  \<^verbatim>\<open>std::exception_ptr\<close> is the captured exception (here its message) or
  null (\<open>None\<close>). An \<^verbatim>\<open>InferRequest::Ptr\<close> is the index of the
  request in the pool. A time point is a tick count.
\<close>

type_synonym int64 = "64 word"
type_synonym exception_ptr = string
type_synonym blob = "nat list"
type_synonym time_point = nat
type_synonym request = nat

text \<open>
  Modelled from the spec: \<^verbatim>\<open>ResultBase\<close> and \<^verbatim>\<open>InferenceResult\<close>
  are declared in a header that is not among the sources. The fields are the ones the
  source assigns (\<^verbatim>\<open>frameId\<close>, \<^verbatim>\<open>metaData\<close>,
  \<^verbatim>\<open>outputsData\<close>, \<^verbatim>\<open>startTime\<close>), which are the spec's
  PendingResult: sequence id, opaque metadata (a shared pointer, possibly null), the named
  output payload, and the start timestamp.
\<close>

record 'm ResultBase =
  frameId :: int64
  metaData :: "'m option"

record 'm InferenceResult = "'m ResultBase" +
  outputsData :: "(string \<times> blob) list"
  startTime :: time_point

text \<open>
  Modelled from the spec: the default-constructed \<^verbatim>\<open>InferenceResult\<close>
  (\<^verbatim>\<open>InferenceResult retVal;\<close>), whose constructor is in the missing header.
  It is the spec's Empty result: it carries no sequence id (\<open>-1\<close>), no metadata and
  no output payload.
\<close>

definition InferenceResult_default :: "'m InferenceResult" where
  "InferenceResult_default =
     \<lparr>frameId = - 1, metaData = None, outputsData = [], startTime = 0\<rparr>"

text \<open>
  Modelled from the spec: \<^verbatim>\<open>RequestsPool\<close> (the spec's WorkerSlotPool) is
  code of the repository that is not among the sources. It owns a fixed-size collection of
  slots and tracks which are idle and which are busy: here the list of the busy flags
  (\<open>True\<close> is busy), a request being its index.
\<close>

type_synonym RequestsPool = "bool list"

text \<open>
  Modelled from the spec: \<^verbatim>\<open>RequestsPool::isIdleRequestAvailable\<close>, "a slot
  is idle and available for new submissions".
\<close>

definition isIdleRequestAvailable :: "RequestsPool \<Rightarrow> bool" where
  "isIdleRequestAvailable pool = list_ex (\<lambda>busy. \<not> busy) pool"

text \<open>
  Modelled from the spec: the index of the first idle slot, the probe behind
  \<^verbatim>\<open>RequestsPool::getIdleRequest\<close>.
\<close>

fun firstIdle :: "RequestsPool \<Rightarrow> request option" where
  "firstIdle [] = None"
| "firstIdle (busy # pool) = (if busy then map_option Suc (firstIdle pool) else Some 0)"

text \<open>
  Modelled from the spec: \<^verbatim>\<open>RequestsPool::getIdleRequest\<close>, the
  non-blocking probe "hands out an idle slot on demand": an idle slot becomes busy and is
  returned; with none idle the result is null and the pool is as it was.
\<close>

definition getIdleRequest :: "RequestsPool \<Rightarrow> request option \<times> RequestsPool" where
  "getIdleRequest pool =
     (case firstIdle pool of
        None \<Rightarrow> (None, pool)
      | Some r \<Rightarrow> (Some r, pool[r := True]))"

text \<open>
  Modelled from the spec: \<^verbatim>\<open>RequestsPool::setRequestIdle\<close>, "return the slot
  to WorkerSlotPool as idle". (A request that is not of the pool leaves it unchanged: a
  list update out of range does nothing.)
\<close>

definition setRequestIdle :: "RequestsPool \<Rightarrow> request \<Rightarrow> RequestsPool" where
  "setRequestIdle pool r = pool[r := False]"

text \<open>
  The members of \<^verbatim>\<open>PipelineBase\<close> that the scheduler uses. The member
  declarations are in the missing header; their types are read off their uses in the source:
  \<^verbatim>\<open>completedInferenceResults\<close> is a map from frame id to result
  (\<^verbatim>\<open>find\<close>, \<^verbatim>\<open>emplace\<close>, \<^verbatim>\<open>erase\<close>),
  \<^verbatim>\<open>callbackException\<close> an exception pointer, the two frame ids are
  \<^verbatim>\<open>int64_t\<close>. \<open>perfMetrics\<close> is the telemetry collaborator, kept as the
  list of start times it was updated with. \<open>callbacks\<close> is the completion callback
  installed in each request by \<^verbatim>\<open>SetCompletionCallback\<close>: the values the
  lambda captures (\<^verbatim>\<open>frameStartTime\<close>, \<^verbatim>\<open>frameID\<close>,
  \<^verbatim>\<open>metaData\<close>; \<^verbatim>\<open>request\<close> is the key).
\<close>

record 'm PipelineBase =
  requestsPool :: RequestsPool
  completedInferenceResults :: "int64 \<rightharpoonup> 'm InferenceResult"
  callbackException :: "exception_ptr option"
  inputFrameId :: int64
  outputFrameId :: int64
  perfMetrics :: "time_point list"
  callbacks :: "request \<rightharpoonup> (time_point \<times> int64 \<times> 'm option)"

text \<open>
  Modelled from the spec: the state after construction. The member initialisers are in the
  missing header; the spec starts both sequence ids at 0, with every one of the
  \<^verbatim>\<open>maxAsyncRequests\<close> slots idle, nothing stored and no error captured.
\<close>

definition init :: "nat \<Rightarrow> 'm PipelineBase" where
  "init maxAsyncRequests =
     \<lparr>requestsPool = replicate maxAsyncRequests False,
      completedInferenceResults = Map.empty,
      callbackException = None,
      inputFrameId = 0,
      outputFrameId = 0,
      perfMetrics = [],
      callbacks = Map.empty\<rparr>"

subsection \<open>Frame id arithmetic\<close>

text \<open>
  \<^verbatim>\<open>inputFrameId++; if (inputFrameId < 0) inputFrameId = 0;\<close> and the same
  two lines for \<^verbatim>\<open>outputFrameId\<close>. The increment wraps around in two's
  complement (what the test that follows it expects), so the successor of the largest
  \<^verbatim>\<open>int64_t\<close> is negative and is replaced by 0.
\<close>

definition incFrameId :: "int64 \<Rightarrow> int64" where
  "incFrameId x = (let y = x + 1 in if sint y < 0 then 0 else y)"

subsection \<open>\<^verbatim>\<open>waitForData\<close>\<close>

text \<open>
  \<^verbatim>\<open>condVar.wait(lock, pred)\<close> returns when \<^verbatim>\<open>pred\<close> holds
  under the lock; while it does not, the caller stays blocked. One call at state \<open>s\<close>
  therefore has three outcomes: it is still blocked at \<open>s\<close>, it rethrows the captured
  exception, or it returns.
\<close>

datatype wait_result = Blocked | Rethrown exception_ptr | Returned

definition waitForData :: "'m PipelineBase \<Rightarrow> wait_result" where
  "waitForData s =
     (if callbackException s \<noteq> None \<or>
         isIdleRequestAvailable (requestsPool s) \<or>
         completedInferenceResults s (outputFrameId s) \<noteq> None
      then (case callbackException s of
              Some e \<Rightarrow> Rethrown e
            | None \<Rightarrow> Returned)
      else Blocked)"

subsection \<open>The completion callback\<close>

text \<open>
  \<^verbatim>\<open>std::map::emplace\<close>: a key that is already present keeps its value.
\<close>

definition emplace_outputs :: "string \<Rightarrow> blob \<Rightarrow> (string \<times> blob) list \<Rightarrow> (string \<times> blob) list" where
  "emplace_outputs k v kvs = (if map_of kvs k = None then kvs @ [(k, v)] else kvs)"

text \<open>
  The loop over \<^verbatim>\<open>model->getOutputsNames()\<close>: each output blob of the
  request is copied into \<^verbatim>\<open>result.outputsData\<close>. \<open>GetBlob\<close> is the
  backend's answer for this request; reading or casting a blob may throw, which leaves the
  loop (and the \<^verbatim>\<open>try\<close> block) at once.
\<close>

fun extractOutputs ::
  "(string \<Rightarrow> exception_ptr + blob) \<Rightarrow> string list \<Rightarrow> (string \<times> blob) list
     \<Rightarrow> exception_ptr + (string \<times> blob) list" where
  "extractOutputs GetBlob [] outs = Inr outs"
| "extractOutputs GetBlob (outName # names) outs =
     (case GetBlob outName of
        Inl e \<Rightarrow> Inl e
      | Inr b \<Rightarrow> extractOutputs GetBlob names (emplace_outputs outName b outs))"

text \<open>
  \<^verbatim>\<open>completedInferenceResults.emplace(frameID, result)\<close>: as for every
  standard map, an entry that is already stored under the key is kept and the new one is
  dropped; the returned flag is not looked at.
\<close>

definition emplace_result ::
  "(int64 \<rightharpoonup> 'm InferenceResult) \<Rightarrow> int64 \<Rightarrow> 'm InferenceResult \<Rightarrow> (int64 \<rightharpoonup> 'm InferenceResult)" where
  "emplace_result m k r = (case m k of None \<Rightarrow> m(k \<mapsto> r) | Some _ \<Rightarrow> m)"

text \<open>
  The handler \<^verbatim>\<open>catch (...)\<close>: the exception is stored only when none is.
\<close>

definition catch_all :: "exception_ptr \<Rightarrow> 'm PipelineBase \<Rightarrow> 'm PipelineBase" where
  "catch_all e s =
     (if callbackException s = None then s\<lparr>callbackException := Some e\<rparr> else s)"

text \<open>
  The body of the lambda given to \<^verbatim>\<open>SetCompletionCallback\<close>, run under
  \<^verbatim>\<open>mtx\<close>. \<open>names\<close> is \<^verbatim>\<open>model->getOutputsNames()\<close>,
  \<open>GetBlob\<close> the backend's blobs for the request, \<open>hook\<close> the outcome of the virtual
  \<^verbatim>\<open>onProcessingCompleted\<close> (it returns, \<open>None\<close>, or throws); the rest
  are the captured values. In the source's order: build the result, store it, set the request
  idle, call the hook; an exception thrown anywhere skips the rest of the
  \<^verbatim>\<open>try\<close> block and reaches the handler.
\<close>

definition completionCallback ::
  "string list \<Rightarrow> (string \<Rightarrow> exception_ptr + blob) \<Rightarrow> exception_ptr option
     \<Rightarrow> time_point \<Rightarrow> int64 \<Rightarrow> request \<Rightarrow> 'm option
     \<Rightarrow> 'm PipelineBase \<Rightarrow> 'm PipelineBase" where
  "completionCallback names GetBlob hook frameStartTime frameID request md s =
     (case extractOutputs GetBlob names [] of
        Inl e \<Rightarrow> catch_all e s
      | Inr outs \<Rightarrow>
          (let result = \<lparr>frameId = frameID, metaData = md,
                          outputsData = outs, startTime = frameStartTime\<rparr>;
               s1 = s\<lparr>completedInferenceResults :=
                         emplace_result (completedInferenceResults s) frameID result\<rparr>;
               s2 = s1\<lparr>requestsPool := setRequestIdle (requestsPool s1) request\<rparr>
           in (case hook of
                 Some e \<Rightarrow> catch_all e s2
               | None \<Rightarrow> s2)))"

text \<open>
  The backend completes a request: it runs the callback installed in it, if there is one.
  Nothing here limits how often or when the backend does so: the runs below include every
  order of completion (and more than the backend's contract allows, such as a callback
  that fires twice).
\<close>

definition complete ::
  "string list \<Rightarrow> (string \<Rightarrow> exception_ptr + blob) \<Rightarrow> exception_ptr option
     \<Rightarrow> request \<Rightarrow> 'm PipelineBase \<Rightarrow> 'm PipelineBase" where
  "complete names GetBlob hook request s =
     (case callbacks s request of
        None \<Rightarrow> s
      | Some (frameStartTime, frameID, md) \<Rightarrow>
          completionCallback names GetBlob hook frameStartTime frameID request md s)"

subsection \<open>Submission\<close>

text \<open>
  \<^verbatim>\<open>submitRequest\<close>: the frame id is read, the callback is installed with
  the captured values, the counter is advanced, the request is started and the frame id
  read at first is returned. \<open>now\<close> is \<^verbatim>\<open>steady_clock::now()\<close>.
\<close>

definition submitRequest ::
  "time_point \<Rightarrow> request \<Rightarrow> 'm option \<Rightarrow> 'm PipelineBase \<Rightarrow> int64 \<times> 'm PipelineBase" where
  "submitRequest now request md s =
     (let frameID = inputFrameId s;
          s1 = s\<lparr>callbacks := (callbacks s)(request \<mapsto> (now, frameID, md))\<rparr>;
          s2 = s1\<lparr>inputFrameId := incFrameId (inputFrameId s1)\<rparr>
      in (frameID, s2))"

text \<open>
  \<^verbatim>\<open>submitImage\<close>. \<open>preprocess\<close> is the outcome of
  \<^verbatim>\<open>model->preprocess\<close> on the image: it throws or yields the metadata
  pointer. The result is the thrown exception or the returned \<^verbatim>\<open>int64_t\<close>.
\<close>

definition submitImage ::
  "(exception_ptr + 'm option) \<Rightarrow> time_point \<Rightarrow> 'm PipelineBase
     \<Rightarrow> (exception_ptr + int64) \<times> 'm PipelineBase" where
  "submitImage preprocess now s =
     (let (request, pool) = getIdleRequest (requestsPool s);
          s1 = s\<lparr>requestsPool := pool\<rparr>
      in (case request of
            None \<Rightarrow> (Inr (- 1), s1)
          | Some r \<Rightarrow>
              (case preprocess of
                 Inl e \<Rightarrow> (Inl e, s1)
               | Inr md \<Rightarrow>
                   (let (frameID, s2) = submitRequest now r md s1
                    in (Inr frameID, s2)))))"

subsection \<open>Consumption\<close>

text \<open>
  \<^verbatim>\<open>getInferenceResult\<close>. \<open>IsEmpty\<close> is
  \<^verbatim>\<open>InferenceResult::IsEmpty\<close>, a member function of the missing header, taken
  as a parameter. Under the lock the entry of \<^verbatim>\<open>outputFrameId\<close> is looked
  up, moved out and erased; then, for a result that is not empty,
  \<^verbatim>\<open>outputFrameId\<close> is set from the result's frame id and advanced, and the
  performance metrics are updated.
\<close>

definition getInferenceResult ::
  "('m InferenceResult \<Rightarrow> bool) \<Rightarrow> 'm PipelineBase \<Rightarrow> 'm InferenceResult \<times> 'm PipelineBase" where
  "getInferenceResult IsEmpty s =
     (let (retVal, s1) =
            (case completedInferenceResults s (outputFrameId s) of
               None \<Rightarrow> (InferenceResult_default, s)
             | Some r \<Rightarrow>
                 (r, s\<lparr>completedInferenceResults :=
                         (completedInferenceResults s)(outputFrameId s := None)\<rparr>))
      in if \<not> IsEmpty retVal
         then (retVal, s1\<lparr>outputFrameId := incFrameId (frameId retVal),
                           perfMetrics := perfMetrics s1 @ [startTime retVal]\<rparr>)
         else (retVal, s1))"

text \<open>
  \<^verbatim>\<open>getResult\<close>: an empty inference result gives the null pointer; otherwise
  \<open>postprocess\<close> (\<^verbatim>\<open>model->postprocess\<close>, which may throw) builds the
  result, whose base part is then overwritten with the one of the inference result.
\<close>

definition getResult ::
  "('m InferenceResult \<Rightarrow> bool) \<Rightarrow> ('m InferenceResult \<Rightarrow> exception_ptr + ('m, 'z) ResultBase_scheme)
     \<Rightarrow> 'm PipelineBase \<Rightarrow> (exception_ptr + ('m, 'z) ResultBase_scheme option) \<times> 'm PipelineBase" where
  "getResult IsEmpty postprocess s =
     (let (infResult, s1) = getInferenceResult IsEmpty s
      in if IsEmpty infResult then (Inr None, s1)
         else (case postprocess infResult of
                 Inl e \<Rightarrow> (Inl e, s1)
               | Inr result \<Rightarrow>
                   (Inr (Some (result\<lparr>frameId := frameId infResult,
                                       metaData := metaData infResult\<rparr>)), s1)))"

subsection \<open>Runs of the scheduler\<close>

text \<open>
  The driver thread calls \<^verbatim>\<open>submitImage\<close>,
  \<^verbatim>\<open>getInferenceResult\<close> and \<^verbatim>\<open>waitForData\<close>; the backend
  completes requests, in any order. A run is a list of such events, each atomic (the shared
  state is touched under \<^verbatim>\<open>mtx\<close>, and the frame ids by the driver only), and
  what the caller sees of each is an observation.
\<close>

datatype 'm event =
    SubmitImage "exception_ptr + 'm option" time_point
  | Complete request "string \<Rightarrow> exception_ptr + blob" "exception_ptr option"
  | GetInferenceResult
  | WaitForData

datatype 'm observation =
    Submitted int64
  | Thrown exception_ptr
  | Completed
  | Got "'m InferenceResult"
  | Waited wait_result

fun step ::
  "string list \<Rightarrow> ('m InferenceResult \<Rightarrow> bool) \<Rightarrow> 'm event \<Rightarrow> 'm PipelineBase
     \<Rightarrow> 'm observation \<times> 'm PipelineBase" where
  "step names IsEmpty (SubmitImage preprocess now) s =
     (case submitImage preprocess now s of
        (Inl e, s1) \<Rightarrow> (Thrown e, s1)
      | (Inr frameID, s1) \<Rightarrow> (Submitted frameID, s1))"
| "step names IsEmpty (Complete request GetBlob hook) s =
     (Completed, complete names GetBlob hook request s)"
| "step names IsEmpty GetInferenceResult s =
     (case getInferenceResult IsEmpty s of (retVal, s1) \<Rightarrow> (Got retVal, s1))"
| "step names IsEmpty WaitForData s = (Waited (waitForData s), s)"

fun run ::
  "string list \<Rightarrow> ('m InferenceResult \<Rightarrow> bool) \<Rightarrow> 'm event list \<Rightarrow> 'm PipelineBase
     \<Rightarrow> 'm observation list \<times> 'm PipelineBase" where
  "run names IsEmpty [] s = ([], s)"
| "run names IsEmpty (e # es) s =
     (case step names IsEmpty e s of
        (ob, s1) \<Rightarrow> (case run names IsEmpty es s1 of (obs, s2) \<Rightarrow> (ob # obs, s2)))"

text \<open>
  The frame ids of the results the consumer received: the results of the
  \<^verbatim>\<open>getInferenceResult\<close> calls that are not empty.
\<close>

fun delivered :: "('m InferenceResult \<Rightarrow> bool) \<Rightarrow> 'm observation list \<Rightarrow> int64 list" where
  "delivered IsEmpty [] = []"
| "delivered IsEmpty (Got r # obs) =
     (if IsEmpty r then delivered IsEmpty obs else frameId r # delivered IsEmpty obs)"
| "delivered IsEmpty (ob # obs) = delivered IsEmpty obs"

subsection \<open>The store's invariant\<close>

text \<open>
  Every stored result is stored under its own frame id: the callback stores
  \<^verbatim>\<open>result\<close> under \<^verbatim>\<open>frameID\<close> after
  \<^verbatim>\<open>result.frameId = frameID\<close>.
\<close>

definition keyed :: "'m PipelineBase \<Rightarrow> bool" where
  "keyed s = (\<forall>k r. completedInferenceResults s k = Some r \<longrightarrow> frameId r = k)"

subsection \<open>Accounting for the submitted frames\<close>


text \<open>
  The invariant that accounts for every submitted frame. After \<open>N\<close> accepted
  submissions and \<open>D\<close> deliveries the counters are \<open>N\<close> and \<open>D\<close>, every
  stored result is a non-empty result of a submitted frame, stored under its frame id,
  every installed callback is the one of a submitted frame, and each of the frames
  \<open>0, ..., N - 1\<close> is delivered already, or in the store, or still waited for: its
  callback is installed in a request that is busy.
\<close>

definition accounted :: "('m InferenceResult \<Rightarrow> bool) \<Rightarrow> nat \<Rightarrow> nat \<Rightarrow> 'm PipelineBase \<Rightarrow> bool" where
  "accounted IsEmpty D N s =
     (inputFrameId s = word_of_nat N \<and> outputFrameId s = word_of_nat D \<and> D \<le> N \<and>
      (\<forall>k r. completedInferenceResults s k = Some r \<longrightarrow>
         frameId r = k \<and> \<not> IsEmpty r \<and> (\<exists>j<N. k = word_of_nat j)) \<and>
      (\<forall>q t fid md. callbacks s q = Some (t, fid, md) \<longrightarrow> (\<exists>j<N. fid = word_of_nat j)) \<and>
      (\<forall>j<N. j < D \<or> completedInferenceResults s (word_of_nat j) \<noteq> None \<or>
         (\<exists>q<length (requestsPool s). requestsPool s ! q \<and>
            (\<exists>t md. callbacks s q = Some (t, word_of_nat j, md)))))"

section \<open>Properties\<close>

subsection \<open>The pool\<close>

lemma firstIdle_None: "(firstIdle pool = None) = (\<not> isIdleRequestAvailable pool)"
  by (induction pool) (auto simp: isIdleRequestAvailable_def)

lemma isIdleRequestAvailable_iff: "isIdleRequestAvailable pool = (\<exists>r < length pool. \<not> pool ! r)"
proof -
  have "isIdleRequestAvailable pool = (False \<in> set pool)"
    by (auto simp: isIdleRequestAvailable_def list_ex_iff)
  also have "\<dots> = (\<exists>r < length pool. pool ! r = False)"
    by (simp only: in_set_conv_nth)
  finally show ?thesis by simp
qed

lemma getIdleRequest_None:
  "\<not> isIdleRequestAvailable pool \<Longrightarrow> getIdleRequest pool = (None, pool)"
  by (simp add: getIdleRequest_def firstIdle_None [symmetric])

lemma getIdleRequest_Some:
  "isIdleRequestAvailable pool \<Longrightarrow> \<exists>r. getIdleRequest pool = (Some r, pool[r := True])"
  using firstIdle_None [of pool] by (cases "firstIdle pool") (auto simp: getIdleRequest_def)

subsection \<open>The callback and the frame ids\<close>

lemma catch_all_fields [simp]:
  "requestsPool (catch_all e s) = requestsPool s"
  "completedInferenceResults (catch_all e s) = completedInferenceResults s"
  "inputFrameId (catch_all e s) = inputFrameId s"
  "outputFrameId (catch_all e s) = outputFrameId s"
  "perfMetrics (catch_all e s) = perfMetrics s"
  "callbacks (catch_all e s) = callbacks s"
  by (simp_all add: catch_all_def)

lemma keyed_catch_all [simp]: "keyed (catch_all e s) = keyed s"
  by (simp add: keyed_def)

lemma completionCallback_outputFrameId [simp]:
  "outputFrameId (completionCallback names GetBlob hook t frameID request md s) = outputFrameId s"
  by (simp add: completionCallback_def Let_def split: sum.splits option.splits)

lemma completionCallback_inputFrameId [simp]:
  "inputFrameId (completionCallback names GetBlob hook t frameID request md s) = inputFrameId s"
  by (simp add: completionCallback_def Let_def split: sum.splits option.splits)

lemma keyed_completionCallback:
  "keyed s \<Longrightarrow> keyed (completionCallback names GetBlob hook t frameID request md s)"
  by (auto simp: completionCallback_def Let_def keyed_def emplace_result_def
           split: sum.splits option.splits)

lemma complete_outputFrameId [simp]:
  "outputFrameId (complete names GetBlob hook request s) = outputFrameId s"
  by (simp add: complete_def split: option.splits prod.splits)

lemma complete_inputFrameId [simp]:
  "inputFrameId (complete names GetBlob hook request s) = inputFrameId s"
  by (simp add: complete_def split: option.splits prod.splits)

lemma keyed_complete: "keyed s \<Longrightarrow> keyed (complete names GetBlob hook request s)"
  by (simp add: complete_def keyed_completionCallback split: option.splits prod.splits)

lemma submitImage_outputFrameId [simp]:
  "outputFrameId (snd (submitImage preprocess now s)) = outputFrameId s"
  by (simp add: submitImage_def submitRequest_def Let_def split: prod.splits option.splits sum.splits)

lemma submitImage_store [simp]:
  "completedInferenceResults (snd (submitImage preprocess now s)) = completedInferenceResults s"
  by (simp add: submitImage_def submitRequest_def Let_def split: prod.splits option.splits sum.splits)

lemma keyed_submitImage: "keyed s \<Longrightarrow> keyed (snd (submitImage preprocess now s))"
  by (simp add: keyed_def)

lemma keyed_getInferenceResult: "keyed s \<Longrightarrow> keyed (snd (getInferenceResult IsEmpty s))"
  by (auto simp: keyed_def getInferenceResult_def Let_def split: option.splits if_splits)

lemma snd_step_SubmitImage [simp]:
  "snd (step names IsEmpty (SubmitImage preprocess now) s) = snd (submitImage preprocess now s)"
proof (cases "submitImage preprocess now s")
  case (Pair a b)
  then show ?thesis by (cases a) simp_all
qed

lemma snd_step_Complete [simp]:
  "snd (step names IsEmpty (Complete request GetBlob hook) s) = complete names GetBlob hook request s"
  by simp

lemma snd_step_GetInferenceResult [simp]:
  "snd (step names IsEmpty GetInferenceResult s) = snd (getInferenceResult IsEmpty s)"
  by (cases "getInferenceResult IsEmpty s") simp

lemma snd_step_WaitForData [simp]:
  "snd (step names IsEmpty WaitForData s) = s"
  by simp

lemma keyed_step: "keyed s \<Longrightarrow> keyed (snd (step names IsEmpty e s))"
  by (cases e) (simp_all add: keyed_complete keyed_submitImage keyed_getInferenceResult del: step.simps)

lemma getInferenceResult_nonempty:
  assumes "IsEmpty InferenceResult_default" "keyed s"
    and "getInferenceResult IsEmpty s = (r, s1)" "\<not> IsEmpty r"
  shows "completedInferenceResults s (outputFrameId s) = Some r"
    and "frameId r = outputFrameId s"
    and "s1 = s\<lparr>completedInferenceResults := (completedInferenceResults s)(outputFrameId s := None),
               outputFrameId := incFrameId (outputFrameId s),
               perfMetrics := perfMetrics s @ [startTime r]\<rparr>"
  using assms
  by (auto simp: getInferenceResult_def Let_def keyed_def split: option.splits if_splits)

lemma getInferenceResult_empty:
  assumes "getInferenceResult IsEmpty s = (r, s1)" "IsEmpty r"
  shows "outputFrameId s1 = outputFrameId s"
  using assms
  by (auto simp: getInferenceResult_def Let_def split: option.splits if_splits)

lemma sint_lt63: "sint (x :: 64 word) < 2 ^ 63"
  using sint_lt [of x] by simp

lemma sint_ge63: "- (2 ^ 63) \<le> sint (x :: 64 word)"
  using sint_ge [of x] by simp

lemma sint_succ:
  "sint (x + 1 :: 64 word) = (if sint x + 1 = 2 ^ 63 then - (2 ^ 63) else sint x + 1)"
proof (cases "sint x + 1 = 2 ^ 63")
  case True
  have "sint (x + 1) = signed_take_bit 63 (sint x + 1)"
    by (simp add: sint_word_ariths)
  also have "\<dots> = signed_take_bit 63 (2 ^ 63 :: int)" using True by simp
  also have "\<dots> = - (2 ^ 63)" by simp
  finally show ?thesis using True by simp
next
  case False
  have b: "- (2 ^ 63) \<le> sint x + 1" "sint x + 1 < 2 ^ 63"
    using sint_ge63 [of x] sint_lt63 [of x] False by auto
  have "sint (x + 1) = signed_take_bit 63 (sint x + 1)"
    by (simp add: sint_word_ariths)
  also have "\<dots> = sint x + 1"
    using b by (simp add: signed_take_bit_int_eq_self)
  finally show ?thesis using False by simp
qed

lemma incFrameId_sint:
  "sint (incFrameId x) = (if sint x + 1 < 0 \<or> sint x + 1 = 2 ^ 63 then 0 else sint x + 1)"
  by (simp add: incFrameId_def Let_def sint_succ)

lemma incFrameId_nonneg: "0 \<le> sint (incFrameId x)"
  by (simp add: incFrameId_def Let_def)

lemma sint_of_nat63:
  assumes "m < 2 ^ 63"
  shows "sint (of_nat m :: 64 word) = int m"
proof -
  have "sint (of_nat m :: 64 word) = signed_take_bit 63 (int m)"
    by (simp add: signed_of_nat)
  also have "\<dots> = int m"
    using assms by (simp add: signed_take_bit_int_eq_self)
  finally show ?thesis .
qed

lemma incFrameId_of_nat:
  assumes "m < 2 ^ 63"
  shows "incFrameId (of_nat m) = of_nat (Suc m mod 2 ^ 63)"
proof (cases "Suc m = 2 ^ 63")
  case True
  then have "sint (of_nat m :: 64 word) + 1 = 2 ^ 63"
    using assms by (simp add: sint_of_nat63)
  then have "sint (of_nat m + 1 :: 64 word) < 0" by (simp add: sint_succ)
  then show ?thesis using True by (simp add: incFrameId_def Let_def)
next
  case False
  then have lt: "Suc m < 2 ^ 63" using assms by simp
  then have "sint (of_nat (Suc m) :: 64 word) = int (Suc m)" by (rule sint_of_nat63)
  then have "\<not> sint (of_nat m + 1 :: 64 word) < 0" by (simp add: add.commute)
  then show ?thesis using lt by (simp add: incFrameId_def Let_def)
qed

lemma funpow_incFrameId: "(incFrameId ^^ n) 0 = of_nat (n mod 2 ^ 63)"
proof (induction n)
  case 0
  show ?case by simp
next
  case (Suc n)
  have "incFrameId (of_nat (n mod 2 ^ 63)) = of_nat (Suc (n mod 2 ^ 63) mod 2 ^ 63)"
    by (rule incFrameId_of_nat) simp
  then show ?case using Suc by (simp add: mod_Suc_eq)
qed

subsection \<open>Runs\<close>

lemma fst_run_Cons [simp]:
  "fst (run names IsEmpty (e # es) s) =
     fst (step names IsEmpty e s) # fst (run names IsEmpty es (snd (step names IsEmpty e s)))"
  by (simp split: prod.splits)

lemma snd_run_Cons [simp]:
  "snd (run names IsEmpty (e # es) s) = snd (run names IsEmpty es (snd (step names IsEmpty e s)))"
  by (simp split: prod.splits)

lemma keyed_init: "keyed (init n)"
  by (simp add: keyed_def init_def)

lemma keyed_run: "keyed s \<Longrightarrow> keyed (snd (run names IsEmpty es s))"
proof (induction es arbitrary: s)
  case Nil
  then show ?case by simp
next
  case (Cons e es)
  from Cons.prems have "keyed (snd (step names IsEmpty e s))" by (rule keyed_step)
  then have "keyed (snd (run names IsEmpty es (snd (step names IsEmpty e s))))" by (rule Cons.IH)
  then show ?case by (simp only: snd_run_Cons)
qed

lemma delivered_Cons: "delivered IsEmpty (ob # obs) = delivered IsEmpty [ob] @ delivered IsEmpty obs"
  by (cases ob) simp_all

lemma step_delivery:
  assumes "IsEmpty InferenceResult_default" "keyed s"
  shows "delivered IsEmpty [fst (step names IsEmpty e s)] = [] \<and>
           outputFrameId (snd (step names IsEmpty e s)) = outputFrameId s
         \<or> delivered IsEmpty [fst (step names IsEmpty e s)] = [outputFrameId s] \<and>
           outputFrameId (snd (step names IsEmpty e s)) = incFrameId (outputFrameId s)"
proof (cases e)
  case (SubmitImage preprocess now)
  obtain a b where ab: "submitImage preprocess now s = (a, b)" by (cases "submitImage preprocess now s")
  have "outputFrameId b = outputFrameId s"
    using submitImage_outputFrameId [of preprocess now s] ab by simp
  then show ?thesis using SubmitImage ab by (cases a) simp_all
next
  case (Complete request GetBlob hook)
  then show ?thesis by simp
next
  case GetInferenceResult
  obtain r s1 where rs: "getInferenceResult IsEmpty s = (r, s1)"
    by (cases "getInferenceResult IsEmpty s")
  show ?thesis
  proof (cases "IsEmpty r")
    case True
    then show ?thesis
      using GetInferenceResult rs getInferenceResult_empty [OF rs True] by simp
  next
    case False
    note ne = getInferenceResult_nonempty [OF assms rs False]
    have "outputFrameId s1 = incFrameId (outputFrameId s)" by (simp add: ne(3))
    then show ?thesis using GetInferenceResult rs False ne(2) by simp
  qed
next
  case WaitForData
  then show ?thesis by simp
qed

lemma map_funpow_upt:
  "x # map (\<lambda>j. (f ^^ j) (f x)) [0..<n] = map (\<lambda>j. (f ^^ j) x) [0..<Suc n]"
  by (simp only: map_upt_Suc funpow_Suc_right o_apply funpow_0)

lemma delivered_run:
  assumes "IsEmpty InferenceResult_default"
  shows "keyed s \<Longrightarrow>
     delivered IsEmpty (fst (run names IsEmpty es s)) =
       map (\<lambda>j. (incFrameId ^^ j) (outputFrameId s))
         [0..<length (delivered IsEmpty (fst (run names IsEmpty es s)))] \<and>
     outputFrameId (snd (run names IsEmpty es s)) =
       (incFrameId ^^ length (delivered IsEmpty (fst (run names IsEmpty es s)))) (outputFrameId s)"
proof (induction es arbitrary: s)
  case Nil
  show ?case by simp
next
  case (Cons e es)
  let ?s1 = "snd (step names IsEmpty e s)"
  let ?ob = "fst (step names IsEmpty e s)"
  let ?obs = "fst (run names IsEmpty es ?s1)"
  let ?n = "length (delivered IsEmpty ?obs)"
  have k1: "keyed ?s1" using Cons.prems by (rule keyed_step)
  note IH = Cons.IH [OF k1]
  have split: "delivered IsEmpty (?ob # ?obs) = delivered IsEmpty [?ob] @ delivered IsEmpty ?obs"
    by (rule delivered_Cons)
  from step_delivery [where IsEmpty = IsEmpty and s = s and names = names and e = e,
      OF assms Cons.prems]
  show ?case
  proof
    assume a: "delivered IsEmpty [?ob] = [] \<and> outputFrameId ?s1 = outputFrameId s"
    then have "delivered IsEmpty (?ob # ?obs) = delivered IsEmpty ?obs" using split by simp
    then show ?thesis using IH a by (simp only: fst_run_Cons snd_run_Cons) 
  next
    assume a: "delivered IsEmpty [?ob] = [outputFrameId s] \<and>
               outputFrameId ?s1 = incFrameId (outputFrameId s)"
    then have d: "delivered IsEmpty (?ob # ?obs) = outputFrameId s # delivered IsEmpty ?obs"
      using split by simp
    have l: "length (delivered IsEmpty (?ob # ?obs)) = Suc ?n" by (simp add: d)
    have "delivered IsEmpty (?ob # ?obs) =
            outputFrameId s # map (\<lambda>j. (incFrameId ^^ j) (incFrameId (outputFrameId s))) [0..<?n]"
      using IH a d by simp
    then have 1: "delivered IsEmpty (?ob # ?obs) =
            map (\<lambda>j. (incFrameId ^^ j) (outputFrameId s)) [0..<Suc ?n]"
      by (simp only: map_funpow_upt)
    have 2: "outputFrameId (snd (run names IsEmpty es ?s1)) = (incFrameId ^^ Suc ?n) (outputFrameId s)"
      using IH a by (simp add: funpow_swap1)
    show ?thesis using 1 2 l by (simp only: fst_run_Cons snd_run_Cons)
  qed
qed




lemmas sched_defs = init_def submitImage_def getIdleRequest_def submitRequest_def incFrameId_def
  complete_def completionCallback_def emplace_result_def emplace_outputs_def catch_all_def
  setRequestIdle_def waitForData_def isIdleRequestAvailable_def getInferenceResult_def
  InferenceResult_default_def Let_def

lemma submitImage_callbackException [simp]:
  "callbackException (snd (submitImage preprocess now s)) = callbackException s"
  by (simp add: submitImage_def submitRequest_def Let_def split: prod.splits option.splits sum.splits)

lemma getInferenceResult_callbackException [simp]:
  "callbackException (snd (getInferenceResult IsEmpty s)) = callbackException s"
  by (simp add: getInferenceResult_def Let_def split: option.splits)

lemma getInferenceResult_inputFrameId [simp]:
  "inputFrameId (snd (getInferenceResult IsEmpty s)) = inputFrameId s"
  by (simp add: getInferenceResult_def Let_def split: option.splits)

lemma completionCallback_sticky:
  "callbackException s = Some e \<Longrightarrow>
   callbackException (completionCallback names GetBlob hook t frameID request md s) = Some e"
  by (simp add: completionCallback_def Let_def catch_all_def split: sum.splits option.splits)

lemma complete_sticky:
  "callbackException s = Some e \<Longrightarrow>
   callbackException (complete names GetBlob hook request s) = Some e"
  by (simp add: complete_def completionCallback_sticky split: option.splits prod.splits)

lemma step_sticky:
  "callbackException s = Some e \<Longrightarrow>
   callbackException (snd (step names IsEmpty ev s)) = Some e"
  by (cases ev) (simp_all add: complete_sticky del: step.simps)

lemma waitForData_sticky: "callbackException s = Some e \<Longrightarrow> waitForData s = Rethrown e"
  by (simp add: waitForData_def)

lemma step_Waited:
  "fst (step names IsEmpty ev s) = Waited w \<Longrightarrow> w = waitForData s"
  by (cases ev) (simp_all split: prod.splits sum.splits)

lemma run_sticky:
  "callbackException s = Some e \<Longrightarrow>
   callbackException (snd (run names IsEmpty es s)) = Some e \<and>
   (\<forall>w. Waited w \<in> set (fst (run names IsEmpty es s)) \<longrightarrow> w = Rethrown e)"
proof (induction es arbitrary: s)
  case Nil
  then show ?case by simp
next
  case (Cons ev es)
  let ?s1 = "snd (step names IsEmpty ev s)"
  have c1: "callbackException ?s1 = Some e" using Cons.prems by (rule step_sticky)
  note IH = Cons.IH [OF c1]
  have hd: "w = Rethrown e" if "fst (step names IsEmpty ev s) = Waited w" for w
    using step_Waited [OF that] waitForData_sticky [OF Cons.prems] by simp
  show ?case using IH hd by (auto simp only: fst_run_Cons snd_run_Cons set_ConsD set_simps insert_iff)
qed

lemma submitRequest_inputFrameId [simp]:
  "inputFrameId (snd (submitRequest now request md s)) = incFrameId (inputFrameId s)"
  by (simp add: submitRequest_def Let_def)

lemma submitImage_inputFrameId:
  "inputFrameId (snd (submitImage preprocess now s)) = inputFrameId s \<or>
   inputFrameId (snd (submitImage preprocess now s)) = incFrameId (inputFrameId s)"
  by (simp add: submitImage_def submitRequest_def Let_def split: prod.splits option.splits sum.splits)

lemma step_inputFrameId_nonneg:
  assumes "0 \<le> sint (inputFrameId s)"
  shows "0 \<le> sint (inputFrameId (snd (step names IsEmpty ev s)))"
proof (cases ev)
  case (SubmitImage preprocess now)
  then show ?thesis
    using submitImage_inputFrameId [of preprocess now s] assms incFrameId_nonneg [of "inputFrameId s"]
    by (auto simp del: step.simps)
next
  case (Complete request GetBlob hook)
  then show ?thesis using assms by simp
next
  case GetInferenceResult
  then show ?thesis using assms by (simp del: step.simps)
next
  case WaitForData
  then show ?thesis using assms by simp
qed

lemma run_inputFrameId_nonneg:
  "0 \<le> sint (inputFrameId s) \<Longrightarrow> 0 \<le> sint (inputFrameId (snd (run names IsEmpty es s)))"
proof (induction es arbitrary: s)
  case Nil
  then show ?case by simp
next
  case (Cons ev es)
  from Cons.prems have "0 \<le> sint (inputFrameId (snd (step names IsEmpty ev s)))"
    by (rule step_inputFrameId_nonneg)
  then have "0 \<le> sint (inputFrameId (snd (run names IsEmpty es (snd (step names IsEmpty ev s)))))"
    by (rule Cons.IH)
  then show ?case by (simp only: snd_run_Cons)
qed

lemma init_inputFrameId_nonneg: "0 \<le> sint (inputFrameId (init n))"
  by (simp add: init_def)

lemma incFrameId_succ:
  "0 \<le> sint x \<Longrightarrow>
   sint (incFrameId x) = (if sint x + 1 = 2 ^ 63 then 0 else sint x + 1)"
  by (simp add: incFrameId_sint)

subsection \<open>Draining the store\<close>






subsection \<open>Every completed submission is delivered\<close>



lemma accounted_catch_all [simp]: "accounted IsEmpty D N (catch_all e s) = accounted IsEmpty D N s"
  by (simp add: accounted_def)




















section \<open>The claims\<close>

subsection \<open>C5: the first failure wins\<close>

text \<open>
  C5. When a completion handler fails while it extracts the outputs, the failure is stored
  in \<^verbatim>\<open>callbackException\<close> only if no exception is recorded yet; with one
  recorded, the handler leaves the whole state, and so the recorded exception, as it was,
  and its own failure is dropped.
\<close>

theorem first_failure_wins:
  "extractOutputs GetBlob names [] = Inl e \<Longrightarrow>
   completionCallback names GetBlob hook frameStartTime frameID request md s =
     (case callbackException s of
        None \<Rightarrow> s\<lparr>callbackException := Some e\<rparr>
      | Some e0 \<Rightarrow> s)"
  by (simp add: completionCallback_def catch_all_def split: option.splits)

theorem first_failure_wins_witness:
  "extractOutputs (\<lambda>n. Inl ''second'') [''out''] [] = Inl ''second'' \<and>
   callbackException
     (completionCallback [''out''] (\<lambda>n. Inl ''second'') None 5 1 0 None
        ((init 1 :: nat PipelineBase)\<lparr>callbackException := Some ''first''\<rparr>)) = Some ''first'' \<and>
   callbackException
     (completionCallback [''out''] (\<lambda>n. Inl ''second'') None 5 1 0 None
        (init 1 :: nat PipelineBase)) = Some ''second''"
  using first_failure_wins [of "\<lambda>n. Inl ''second''" "[''out'']" "''second''" None 5 1 0 None
          "(init 1 :: nat PipelineBase)\<lparr>callbackException := Some ''first''\<rparr>"]
        first_failure_wins [of "\<lambda>n. Inl ''second''" "[''out'']" "''second''" None 5 1 0 None
          "init 1 :: nat PipelineBase"]
  by (simp add: init_def)

subsection \<open>C3: when \<^verbatim>\<open>waitForData\<close> returns\<close>

text \<open>
  C3. \<^verbatim>\<open>waitForData\<close> gets back to its caller exactly when an exception is
  captured, or a request of the pool is idle, or the store has the entry of
  \<^verbatim>\<open>outputFrameId\<close>; with an exception captured it gets back by rethrowing
  that exception, and otherwise by returning.
\<close>

theorem waitForData_returns_iff:
  "(waitForData s \<noteq> Blocked) =
     (callbackException s \<noteq> None \<or>
      (\<exists>r < length (requestsPool s). \<not> requestsPool s ! r) \<or>
      outputFrameId s \<in> dom (completedInferenceResults s)) \<and>
   (\<forall>e. callbackException s = Some e \<longrightarrow> waitForData s = Rethrown e) \<and>
   (callbackException s = None \<longrightarrow> waitForData s \<noteq> Blocked \<longrightarrow> waitForData s = Returned)"
  by (auto simp: waitForData_def isIdleRequestAvailable_iff split: option.splits)

theorem waitForData_returns_iff_witness:
  "waitForData ((init 0 :: nat PipelineBase)\<lparr>callbackException := Some ''boom''\<rparr>) = Rethrown ''boom'' \<and>
   waitForData (init 0 :: nat PipelineBase) = Blocked \<and>
   waitForData (init 1 :: nat PipelineBase) = Returned"
  using waitForData_returns_iff [of "(init 0 :: nat PipelineBase)\<lparr>callbackException := Some ''boom''\<rparr>"]
        waitForData_returns_iff [of "init 0 :: nat PipelineBase"]
        waitForData_returns_iff [of "init 1 :: nat PipelineBase"]
  by (simp add: init_def)

subsection \<open>C4: a submission without an idle request is rejected\<close>

text \<open>
  C4. When the pool has no idle request, \<^verbatim>\<open>submitImage\<close> returns \<open>-1\<close>
  at once: no frame id is assigned, and \<^verbatim>\<open>inputFrameId\<close> and every other
  part of the state are as before the call.
\<close>

theorem submitImage_rejected:
  "\<not> isIdleRequestAvailable (requestsPool s) \<Longrightarrow>
   submitImage preprocess now s = (Inr (- 1), s)"
  by (simp add: submitImage_def getIdleRequest_None)

theorem submitImage_rejected_witness:
  "\<not> isIdleRequestAvailable (requestsPool (snd (submitImage (Inr None) 1 (init 1 :: nat PipelineBase)))) \<and>
   submitImage (Inr (Some 4)) 2 (snd (submitImage (Inr None) 1 (init 1 :: nat PipelineBase))) =
     (Inr (- 1), snd (submitImage (Inr None) 1 (init 1 :: nat PipelineBase)))"
proof -
  have busy: "\<not> isIdleRequestAvailable (requestsPool (snd (submitImage (Inr None) 1 (init 1 :: nat PipelineBase))))"
    by (simp add: submitImage_def getIdleRequest_def submitRequest_def init_def
          isIdleRequestAvailable_def Let_def)
  show ?thesis using busy submitImage_rejected [OF busy] by simp
qed

subsection \<open>C10: consuming when the next result is not there\<close>

text \<open>
  C10. When the store has no entry for \<^verbatim>\<open>outputFrameId\<close>,
  \<^verbatim>\<open>getInferenceResult\<close> returns the empty (default-constructed) result and
  the state is unchanged: \<^verbatim>\<open>outputFrameId\<close> is not advanced, nothing is
  erased from the store and the performance metrics are not updated. (That the
  default-constructed result is empty is what \<^verbatim>\<open>IsEmpty\<close>, of the missing
  header, has to say of it.)
\<close>

theorem getInferenceResult_absent:
  "IsEmpty InferenceResult_default \<Longrightarrow>
   completedInferenceResults s (outputFrameId s) = None \<Longrightarrow>
   getInferenceResult IsEmpty s = (InferenceResult_default, s)"
  by (simp add: getInferenceResult_def)

theorem getInferenceResult_absent_witness:
  "(\<lambda>r :: nat InferenceResult. outputsData r = []) InferenceResult_default \<and>
   completedInferenceResults (init 2 :: nat PipelineBase) (outputFrameId (init 2 :: nat PipelineBase)) = None \<and>
   getInferenceResult (\<lambda>r. outputsData r = []) (init 2 :: nat PipelineBase) = (InferenceResult_default, init 2)"
proof -
  have e: "(\<lambda>r :: nat InferenceResult. outputsData r = []) InferenceResult_default"
    by (simp add: InferenceResult_default_def)
  have a: "completedInferenceResults (init 2 :: nat PipelineBase) (outputFrameId (init 2 :: nat PipelineBase)) = None"
    by (simp add: init_def)
  show ?thesis using e a getInferenceResult_absent [of "\<lambda>r. outputsData r = []", OF e a] by simp
qed

subsection \<open>C7: a second result for a stored frame id\<close>

text \<open>
  C7, as stated, fails: a completion handler that runs for a frame id whose result is
  still in the store is not detected. In the run below the callback of request 0 (frame id
  0) fires twice before anything is consumed: both invocations complete normally, no
  exception is captured, \<^verbatim>\<open>waitForData\<close> returns normally, and the store
  keeps the first result while the second is dropped.
\<close>

theorem duplicate_frameId_counterexample:
  "fst (run [''out''] (\<lambda>r. outputsData r = [])
          [SubmitImage (Inr None) 1,
           Complete 0 (\<lambda>n. Inr [1, 2]) None,
           Complete 0 (\<lambda>n. Inr [3, 4]) None,
           WaitForData]
          (init 1 :: nat PipelineBase))
     = [Submitted 0, Completed, Completed, Waited Returned] \<and>
   callbackException
     (snd (run [''out''] (\<lambda>r. outputsData r = [])
          [SubmitImage (Inr None) 1,
           Complete 0 (\<lambda>n. Inr [1, 2]) None,
           Complete 0 (\<lambda>n. Inr [3, 4]) None,
           WaitForData]
          (init 1 :: nat PipelineBase))) = None \<and>
   completedInferenceResults
     (snd (run [''out''] (\<lambda>r. outputsData r = [])
          [SubmitImage (Inr None) 1,
           Complete 0 (\<lambda>n. Inr [1, 2]) None,
           Complete 0 (\<lambda>n. Inr [3, 4]) None,
           WaitForData]
          (init 1 :: nat PipelineBase))) 0
     = Some \<lparr>frameId = 0, metaData = None, outputsData = [(''out'', [1, 2])], startTime = 1\<rparr>"
  by (simp add: init_def submitImage_def getIdleRequest_def submitRequest_def incFrameId_def
        complete_def completionCallback_def emplace_result_def emplace_outputs_def
        setRequestIdle_def waitForData_def isIdleRequestAvailable_def Let_def)

text \<open>
  C7, amended. When a completion handler whose extraction succeeds runs for a frame id that
  already has an entry in the store, the \<^verbatim>\<open>emplace\<close> keeps the stored
  entry and drops the new result; the collision is not detected and records no error, and
  the handler goes on to set its request idle. The whole state after the handler is the
  state before it with the request idle and, only when the hook that runs afterwards
  throws, with the hook's exception captured by the first-failure rule.
\<close>

theorem duplicate_frameId_dropped:
  "completedInferenceResults s frameID = Some r0 \<Longrightarrow>
   extractOutputs GetBlob names [] = Inr outs \<Longrightarrow>
   completionCallback names GetBlob hook frameStartTime frameID request md s =
     s\<lparr>requestsPool := setRequestIdle (requestsPool s) request,
       callbackException :=
         (case hook of
            None \<Rightarrow> callbackException s
          | Some e \<Rightarrow> (case callbackException s of None \<Rightarrow> Some e | Some e0 \<Rightarrow> Some e0))\<rparr>"
  by (cases hook; cases "callbackException s")
     (simp_all add: completionCallback_def emplace_result_def catch_all_def Let_def)

theorem duplicate_frameId_dropped_witness:
  "completedInferenceResults
     ((init 1 :: nat PipelineBase)\<lparr>completedInferenceResults :=
        [0 \<mapsto> \<lparr>frameId = 0, metaData = None, outputsData = [(''out'', [1, 2])], startTime = 1\<rparr>]\<rparr>) 0
     = Some \<lparr>frameId = 0, metaData = None, outputsData = [(''out'', [1, 2])], startTime = 1\<rparr> \<and>
   extractOutputs (\<lambda>n. Inr [3, 4]) [''out''] [] = Inr [(''out'', [3, 4])] \<and>
   completionCallback [''out''] (\<lambda>n. Inr [3, 4]) None 2 0 0 None
     ((init 1 :: nat PipelineBase)\<lparr>completedInferenceResults :=
        [0 \<mapsto> \<lparr>frameId = 0, metaData = None, outputsData = [(''out'', [1, 2])], startTime = 1\<rparr>]\<rparr>)
     = (init 1 :: nat PipelineBase)\<lparr>completedInferenceResults :=
        [0 \<mapsto> \<lparr>frameId = 0, metaData = None, outputsData = [(''out'', [1, 2])], startTime = 1\<rparr>]\<rparr> \<and>
   completionCallback [''out''] (\<lambda>n. Inr [3, 4]) (Some ''hook'') 2 0 0 None
     ((init 1 :: nat PipelineBase)\<lparr>completedInferenceResults :=
        [0 \<mapsto> \<lparr>frameId = 0, metaData = None, outputsData = [(''out'', [1, 2])], startTime = 1\<rparr>]\<rparr>)
     = (init 1 :: nat PipelineBase)\<lparr>completedInferenceResults :=
        [0 \<mapsto> \<lparr>frameId = 0, metaData = None, outputsData = [(''out'', [1, 2])], startTime = 1\<rparr>],
        callbackException := Some ''hook''\<rparr>"
proof -
  let ?r0 = "\<lparr>frameId = 0, metaData = None, outputsData = [(''out'', [1, 2])], startTime = 1\<rparr> :: nat InferenceResult"
  let ?s = "(init 1 :: nat PipelineBase)\<lparr>completedInferenceResults := [0 \<mapsto> ?r0]\<rparr>"
  have a: "completedInferenceResults ?s 0 = Some ?r0" by simp
  have b: "extractOutputs (\<lambda>n. Inr [3, 4]) [''out''] [] = Inr [(''out'', [3, 4])]"
    by (simp add: emplace_outputs_def)
  have c: "completionCallback [''out''] (\<lambda>n. Inr [3, 4]) None 2 0 0 None ?s = ?s"
    using duplicate_frameId_dropped [OF a b, of None 2 0 None]
    by (simp add: init_def setRequestIdle_def)
  have d: "completionCallback [''out''] (\<lambda>n. Inr [3, 4]) (Some ''hook'') 2 0 0 None ?s =
             ?s\<lparr>callbackException := Some ''hook''\<rparr>"
    using duplicate_frameId_dropped [OF a b, of "Some ''hook''" 2 0 None]
    by (simp add: init_def setRequestIdle_def)
  show ?thesis using a b c d by (intro conjI)
qed

subsection \<open>C8: the handler and its request\<close>

text \<open>
  C8, as stated, fails: a completion handler whose output extraction throws does not set its
  request idle. With one request, submitted and then completed with a failing
  \<^verbatim>\<open>GetBlob\<close>, the pool still has this request busy after the handler, no
  request is idle, and the exception is captured.
\<close>

theorem failed_extraction_counterexample:
  "fst (run [''out''] (\<lambda>r. outputsData r = [])
          [SubmitImage (Inr None) 1,
           Complete 0 (\<lambda>n. Inl ''GetBlob'') None]
          (init 1 :: nat PipelineBase))
     = [Submitted 0, Completed] \<and>
   requestsPool
     (snd (run [''out''] (\<lambda>r. outputsData r = [])
          [SubmitImage (Inr None) 1,
           Complete 0 (\<lambda>n. Inl ''GetBlob'') None]
          (init 1 :: nat PipelineBase))) = [True] \<and>
   callbackException
     (snd (run [''out''] (\<lambda>r. outputsData r = [])
          [SubmitImage (Inr None) 1,
           Complete 0 (\<lambda>n. Inl ''GetBlob'') None]
          (init 1 :: nat PipelineBase))) = Some ''GetBlob''"
  by (simp add: init_def submitImage_def getIdleRequest_def submitRequest_def incFrameId_def
        complete_def completionCallback_def catch_all_def Let_def)

text \<open>
  C8, amended. Every invocation of a completion handler whose output extraction succeeds
  sets its request idle inside the critical section, whether the hook that runs after it
  returns or throws: after the handler the request is idle, and so an idle request is
  available.
\<close>

theorem extracted_sets_idle:
  "extractOutputs GetBlob names [] = Inr outs \<Longrightarrow>
   request < length (requestsPool s) \<Longrightarrow>
   requestsPool (completionCallback names GetBlob hook frameStartTime frameID request md s) =
     (requestsPool s)[request := False] \<and>
   \<not> requestsPool (completionCallback names GetBlob hook frameStartTime frameID request md s) ! request \<and>
   isIdleRequestAvailable
     (requestsPool (completionCallback names GetBlob hook frameStartTime frameID request md s))"
  by (auto simp: completionCallback_def setRequestIdle_def Let_def isIdleRequestAvailable_iff
           split: option.splits)

theorem extracted_sets_idle_witness:
  "extractOutputs (\<lambda>n. Inr [1, 2]) [''out''] [] = Inr [(''out'', [1, 2])] \<and>
   (0 :: nat) < length (requestsPool (snd (submitImage (Inr None) 1 (init 1 :: nat PipelineBase)))) \<and>
   requestsPool (snd (submitImage (Inr None) 1 (init 1 :: nat PipelineBase))) = [True] \<and>
   requestsPool (completionCallback [''out''] (\<lambda>n. Inr [1, 2]) (Some ''hook'') 1 0 0 None
      (snd (submitImage (Inr None) 1 (init 1 :: nat PipelineBase)))) = [False]"
proof -
  let ?s = "snd (submitImage (Inr None) 1 (init 1 :: nat PipelineBase))"
  have a: "extractOutputs (\<lambda>n. Inr [1, 2]) [''out''] [] = Inr [(''out'', [1, 2])]"
    by (simp add: emplace_outputs_def)
  have p: "requestsPool ?s = [True]"
    by (simp add: submitImage_def getIdleRequest_def submitRequest_def init_def Let_def)
  have b: "0 < length (requestsPool ?s)" unfolding p by simp
  note c = extracted_sets_idle [OF a b, of "Some ''hook''" 1 0 None, THEN conjunct1, unfolded p]
  have d: "requestsPool (completionCallback [''out''] (\<lambda>n. Inr [1, 2]) (Some ''hook'') 1 0 0 None ?s) = [False]"
    using c by simp
  show ?thesis
    by (intro conjI) (rule a, rule b, rule p, rule d)
qed

subsection \<open>C1: results are delivered in submission order\<close>




subsection \<open>C2: the captured exception is sticky\<close>

text \<open>
  C2, as stated, fails for the consuming calls: \<^verbatim>\<open>getInferenceResult\<close>
  (and \<^verbatim>\<open>getResult\<close>, which calls it) never looks at
  \<^verbatim>\<open>callbackException\<close>. In the state reached below the callback of
  frame 1 has failed and the one of frame 0 has succeeded: the exception is captured and
  \<^verbatim>\<open>waitForData\<close> rethrows it, but
  \<^verbatim>\<open>getInferenceResult\<close> returns the result of frame 0 and
  \<^verbatim>\<open>getResult\<close> returns the postprocessed result, both normally.
\<close>

theorem sticky_error_counterexample:
  "callbackException
     (snd (run [''out''] (\<lambda>r. outputsData r = [])
          [SubmitImage (Inr None) 1, SubmitImage (Inr None) 2,
           Complete 1 (\<lambda>n. Inl ''GetBlob'') None,
           Complete 0 (\<lambda>n. Inr [1, 2]) None]
          (init 2 :: nat PipelineBase))) = Some ''GetBlob'' \<and>
   waitForData
     (snd (run [''out''] (\<lambda>r. outputsData r = [])
          [SubmitImage (Inr None) 1, SubmitImage (Inr None) 2,
           Complete 1 (\<lambda>n. Inl ''GetBlob'') None,
           Complete 0 (\<lambda>n. Inr [1, 2]) None]
          (init 2 :: nat PipelineBase))) = Rethrown ''GetBlob'' \<and>
   fst (getInferenceResult (\<lambda>r. outputsData r = [])
     (snd (run [''out''] (\<lambda>r. outputsData r = [])
          [SubmitImage (Inr None) 1, SubmitImage (Inr None) 2,
           Complete 1 (\<lambda>n. Inl ''GetBlob'') None,
           Complete 0 (\<lambda>n. Inr [1, 2]) None]
          (init 2 :: nat PipelineBase))))
     = \<lparr>frameId = 0, metaData = None, outputsData = [(''out'', [1, 2])], startTime = 1\<rparr> \<and>
   fst (getResult (\<lambda>r. outputsData r = []) (\<lambda>r. Inr \<lparr>frameId = 7, metaData = Some 3\<rparr>)
     (snd (run [''out''] (\<lambda>r. outputsData r = [])
          [SubmitImage (Inr None) 1, SubmitImage (Inr None) 2,
           Complete 1 (\<lambda>n. Inl ''GetBlob'') None,
           Complete 0 (\<lambda>n. Inr [1, 2]) None]
          (init 2 :: nat PipelineBase))))
     = Inr (Some \<lparr>frameId = 0, metaData = None\<rparr>)"
  by (simp add: sched_defs getResult_def numeral_2_eq_2)

text \<open>
  C2, amended. Once a completion handler has recorded a failure in
  \<^verbatim>\<open>callbackException\<close>, no later event clears or replaces it, and every
  subsequent \<^verbatim>\<open>waitForData\<close> call rethrows that same exception, whatever
  completes, is submitted or is consumed in between.
\<close>

theorem sticky_error:
  assumes "callbackException s = Some e"
    and "run names IsEmpty es s = (obs, s')"
  shows "callbackException s' = Some e \<and>
         waitForData s' = Rethrown e \<and>
         (\<forall>w. Waited w \<in> set obs \<longrightarrow> w = Rethrown e)"
proof -
  have obs: "obs = fst (run names IsEmpty es s)" and s': "s' = snd (run names IsEmpty es s)"
    using assms(2) by simp_all
  note r = run_sticky [OF assms(1), of names IsEmpty es, folded obs s']
  then have "callbackException s' = Some e" by (rule conjunct1)
  then show ?thesis using r waitForData_sticky by blast
qed

theorem sticky_error_witness:
  "callbackException
     (snd (run [''out''] (\<lambda>r. outputsData r = [])
        [SubmitImage (Inr None) 1, Complete 0 (\<lambda>n. Inl ''GetBlob'') None]
        (init 1 :: nat PipelineBase))) = Some ''GetBlob'' \<and>
   fst (run [''out''] (\<lambda>r. outputsData r = [])
        [SubmitImage (Inr None) 2, WaitForData, GetInferenceResult, WaitForData]
        (snd (run [''out''] (\<lambda>r. outputsData r = [])
          [SubmitImage (Inr None) 1, Complete 0 (\<lambda>n. Inl ''GetBlob'') None]
          (init 1 :: nat PipelineBase))))
     = [Submitted (- 1), Waited (Rethrown ''GetBlob''), Got InferenceResult_default,
        Waited (Rethrown ''GetBlob'')] \<and>
   waitForData
     (snd (run [''out''] (\<lambda>r. outputsData r = [])
        [SubmitImage (Inr None) 2, WaitForData, GetInferenceResult, WaitForData]
        (snd (run [''out''] (\<lambda>r. outputsData r = [])
          [SubmitImage (Inr None) 1, Complete 0 (\<lambda>n. Inl ''GetBlob'') None]
          (init 1 :: nat PipelineBase))))) = Rethrown ''GetBlob''"
proof -
  let ?E = "\<lambda>r :: nat InferenceResult. outputsData r = []"
  let ?s = "snd (run [''out''] ?E
        [SubmitImage (Inr None) 1, Complete 0 (\<lambda>n. Inl ''GetBlob'') None]
        (init 1 :: nat PipelineBase))"
  let ?R = "run [''out''] ?E [SubmitImage (Inr None) 2, WaitForData, GetInferenceResult, WaitForData] ?s"
  have c: "callbackException ?s = Some ''GetBlob''"
    by (simp add: sched_defs)
  have r: "?R = (fst ?R, snd ?R)" by simp
  note t = sticky_error [OF c r]
  have o: "fst ?R = [Submitted (- 1), Waited (Rethrown ''GetBlob''), Got InferenceResult_default,
        Waited (Rethrown ''GetBlob'')]"
    by (simp add: sched_defs)
  have w: "waitForData (snd ?R) = Rethrown ''GetBlob''"
    using t by blast
  show ?thesis using c o w by (intro conjI)
qed

subsection \<open>C6: the frame ids wrap to zero\<close>

text \<open>
  C6. In every state the scheduler reaches, both counters are non-negative; a submission
  (\<^verbatim>\<open>submitRequest\<close>) leaves \<^verbatim>\<open>inputFrameId\<close> at its
  previous value plus one, except that the successor of the largest value, which would be
  negative, is replaced by 0; and \<^verbatim>\<open>getInferenceResult\<close> advances
  \<^verbatim>\<open>outputFrameId\<close> by the same rule when it returns a non-empty
  result, and leaves it alone otherwise.
\<close>

theorem frameId_wraparound:
  assumes "IsEmpty InferenceResult_default"
    and "run names IsEmpty es (init n) = (obs, s)"
  shows "0 \<le> sint (inputFrameId s) \<and> 0 \<le> sint (outputFrameId s) \<and>
         sint (inputFrameId (snd (submitRequest now request md s))) =
           (if sint (inputFrameId s) + 1 = 2 ^ 63 then 0 else sint (inputFrameId s) + 1) \<and>
         sint (outputFrameId (snd (getInferenceResult IsEmpty s))) =
           (if IsEmpty (fst (getInferenceResult IsEmpty s)) then sint (outputFrameId s)
            else if sint (outputFrameId s) + 1 = 2 ^ 63 then 0
            else sint (outputFrameId s) + 1)"
proof -
  let ?ids = "delivered IsEmpty obs"
  have s: "s = snd (run names IsEmpty es (init n))" using assms(2) by simp
  have i: "0 \<le> sint (inputFrameId s)"
    unfolding s using init_inputFrameId_nonneg by (rule run_inputFrameId_nonneg)
  have k0: "keyed (init n :: 'a PipelineBase)" by (rule keyed_init)
  have ks: "keyed s" unfolding s using k0 by (rule keyed_run)
  have o0: "outputFrameId (init n :: 'a PipelineBase) = 0" by (simp add: init_def)
  note dr = delivered_run [where IsEmpty = IsEmpty and s = "init n" and names = names and es = es,
      OF assms(1) k0, folded s, unfolded o0 funpow_incFrameId, THEN conjunct2]
  have "sint (outputFrameId s) = int (length (delivered IsEmpty (fst (run names IsEmpty es (init n)))) mod 2 ^ 63)"
    unfolding dr by (rule sint_of_nat63) simp
  then have o: "0 \<le> sint (outputFrameId s)" by simp
  have sub: "sint (inputFrameId (snd (submitRequest now request md s))) =
           (if sint (inputFrameId s) + 1 = 2 ^ 63 then 0 else sint (inputFrameId s) + 1)"
    using i by (simp add: incFrameId_succ)
  obtain r s1 where g: "getInferenceResult IsEmpty s = (r, s1)"
    by (cases "getInferenceResult IsEmpty s")
  have get: "sint (outputFrameId s1) =
           (if IsEmpty r then sint (outputFrameId s)
            else if sint (outputFrameId s) + 1 = 2 ^ 63 then 0
            else sint (outputFrameId s) + 1)"
  proof (cases "IsEmpty r")
    case True
    then show ?thesis using getInferenceResult_empty [OF g True] by simp
  next
    case False
    note ne = getInferenceResult_nonempty [where IsEmpty = IsEmpty, OF assms(1) ks g False]
    have "outputFrameId s1 = incFrameId (outputFrameId s)" by (simp add: ne(3))
    then show ?thesis using False o by (simp add: incFrameId_succ)
  qed
  show ?thesis using i o sub get g by simp
qed

theorem frameId_wraparound_witness:
  "(\<lambda>r :: nat InferenceResult. outputsData r = []) InferenceResult_default \<and>
   sint (inputFrameId (snd (run [''out''] (\<lambda>r. outputsData r = [])
        [SubmitImage (Inr None) 1, Complete 0 (\<lambda>n. Inr [1, 2]) None]
        (init 1 :: nat PipelineBase)))) = 1 \<and>
   sint (inputFrameId (snd (submitRequest 2 0 None
      (snd (run [''out''] (\<lambda>r. outputsData r = [])
        [SubmitImage (Inr None) 1, Complete 0 (\<lambda>n. Inr [1, 2]) None]
        (init 1 :: nat PipelineBase)))))) = 2 \<and>
   sint (outputFrameId (snd (getInferenceResult (\<lambda>r. outputsData r = [])
      (snd (run [''out''] (\<lambda>r. outputsData r = [])
        [SubmitImage (Inr None) 1, Complete 0 (\<lambda>n. Inr [1, 2]) None]
        (init 1 :: nat PipelineBase)))))) = 1"
proof -
  let ?E = "\<lambda>r :: nat InferenceResult. outputsData r = []"
  let ?R = "run [''out''] ?E [SubmitImage (Inr None) 1, Complete 0 (\<lambda>n. Inr [1, 2]) None]
        (init 1 :: nat PipelineBase)"
  have e: "?E InferenceResult_default" by (simp add: InferenceResult_default_def)
  have r: "?R = (fst ?R, snd ?R)" by simp
  note t = frameId_wraparound [where IsEmpty = ?E, OF e r, of 2 0 None]
  have i: "sint (inputFrameId (snd ?R)) = 1" by (simp add: sched_defs)
  have o: "sint (outputFrameId (snd ?R)) = 0" by (simp add: sched_defs)
  have ne: "\<not> ?E (fst (getInferenceResult ?E (snd ?R)))" by (simp add: sched_defs)
  have a: "sint (inputFrameId (snd (submitRequest 2 0 None (snd ?R)))) = 2"
    using t [THEN conjunct2, THEN conjunct2, THEN conjunct1] unfolding i by simp
  have b: "sint (outputFrameId (snd (getInferenceResult ?E (snd ?R)))) = 1"
    using t [THEN conjunct2, THEN conjunct2, THEN conjunct2] ne unfolding o by simp
  show ?thesis using e i a b by (intro conjI)
qed

subsection \<open>C9: \<open>-1\<close> means rejected\<close>

text \<open>
  C9. In every state the scheduler reaches, a \<^verbatim>\<open>submitImage\<close> call that
  returns a value returns \<open>-1\<close> exactly when no request is idle (the rejection);
  when a request is idle it returns the frame id it assigned, the current
  \<^verbatim>\<open>inputFrameId\<close>, which is non-negative and so never \<open>-1\<close>.
\<close>

theorem rejected_is_minus_one:
  assumes "run names IsEmpty es (init n) = (obs, s)"
    and "submitImage preprocess now s = (Inr v, s')"
  shows "(v = - 1) = (\<not> isIdleRequestAvailable (requestsPool s)) \<and>
         (isIdleRequestAvailable (requestsPool s) \<longrightarrow> v = inputFrameId s \<and> 0 \<le> sint v)"
proof (cases "isIdleRequestAvailable (requestsPool s)")
  case False
  then have "submitImage preprocess now s = (Inr (- 1), s)"
    by (simp add: submitImage_def getIdleRequest_None)
  then show ?thesis using assms(2) False by simp
next
  case True
  have s: "s = snd (run names IsEmpty es (init n))" using assms(1) by simp
  have i: "0 \<le> sint (inputFrameId s)"
    unfolding s using init_inputFrameId_nonneg by (rule run_inputFrameId_nonneg)
  obtain r where r: "getIdleRequest (requestsPool s) = (Some r, (requestsPool s)[r := True])"
    using getIdleRequest_Some [OF True] by blast
  have v: "v = inputFrameId s"
    using assms(2) r by (simp add: submitImage_def submitRequest_def Let_def split: sum.splits)
  have "v \<noteq> - 1"
  proof
    assume "v = - 1"
    then have "sint (inputFrameId s) = - 1" using v by simp
    then show False using i by simp
  qed
  then show ?thesis using True v i by simp
qed

theorem rejected_is_minus_one_witness:
  "submitImage (Inr None) 1 (init 1 :: nat PipelineBase) =
     (Inr 0, snd (submitImage (Inr None) 1 (init 1 :: nat PipelineBase))) \<and>
   isIdleRequestAvailable (requestsPool (init 1 :: nat PipelineBase)) \<and>
   submitImage (Inr None) 2 (snd (submitImage (Inr None) 1 (init 1 :: nat PipelineBase))) =
     (Inr (- 1), snd (submitImage (Inr None) 1 (init 1 :: nat PipelineBase))) \<and>
   (0 :: int64) \<noteq> - 1"
proof -
  let ?E = "\<lambda>r :: nat InferenceResult. outputsData r = []"
  let ?s0 = "init 1 :: nat PipelineBase"
  let ?s1 = "snd (submitImage (Inr None) 1 ?s0)"
  have r0: "run [] ?E [] ?s0 = ([], ?s0)" by simp
  have a: "submitImage (Inr None) 1 ?s0 = (Inr 0, ?s1)" by (simp add: sched_defs)
  have idle: "isIdleRequestAvailable (requestsPool ?s0)" by (simp add: sched_defs)
  have r1: "run [] ?E [SubmitImage (Inr None) 1] ?s0 = ([Submitted 0], ?s1)"
    by (simp add: sched_defs)
  have b: "submitImage (Inr None) 2 ?s1 = (Inr (- 1), ?s1)" by (simp add: sched_defs)
  note t0 = rejected_is_minus_one [OF r0 a]
  note t1 = rejected_is_minus_one [OF r1 b]
  have ne: "(0 :: int64) \<noteq> - 1" using t0 idle by simp
  show ?thesis using a idle b ne t1 by (intro conjI)
qed

end
